theory Spec2Isabelle
  imports Complex_Main "HOL-Library.AList"
begin

section \<open>Data model of \<open>logs_ingest/main.py\<close>\<close>

text \<open>
  Values decoded from JSON, as \<open>json.loads\<close> hands them to the program: \<open>None\<close>, booleans,
  integers, floats, strings, lists and dictionaries. A float is kept as a mantissa and a binary
  exponent (only its being zero or not is ever looked at); a dictionary is an association list
  in insertion order, read with \<open>map_of\<close> and written with \<open>AList.update\<close>, which keeps the
  place of a key that is present and appends a new one, as a Python \<open>dict\<close> does.
\<close>

datatype json =
    JNull
  | JBool bool
  | JInt int
  | JFloat int int
  | JStr string
  | JArr "json list"
  | JObj "(string \<times> json) list"

type_synonym dict = "(string \<times> json) list"

text \<open>The exceptions the program raises or lets through.\<close>

datatype exn =
    JSONDecodeError
  | UnicodeDecodeError
  | AttributeError
  | TypeError
  | MissingSettings
  | Raised string

text \<open>
  What \<open>dateutil.parser.parse\<close> makes of a timestamp: it raises, or it returns a datetime
  without timezone (naive), or one with a timezone, which fixes an instant. Instants and
  wall-clock readings are counted in microseconds, the resolution of Python's \<open>datetime\<close>.
\<close>

datatype parsed_time = ParseFail | Naive int | Aware int

text \<open>Calls that leave the process, in the order they happen.\<close>

datatype call =
    Body_decoded
  | Send_logs string string "dict list"
  | Log_self_monitoring_data
  | Push_time_series_to_azure

text \<open>
  One \<open>EventHubEvent\<close>: the optional enqueue time (its UTC reading, in microseconds) and the
  raw body.
\<close>

record event =
  enqueued_time :: "int option"
  body :: string

text \<open>
  The mutable state of one invocation. The first three fields are those of the
  \<open>SelfMonitoring\<close> instance that the code updates (\<open>processing_time\<close>, a difference of two
  \<open>perf_counter\<close> floats, is left out). \<open>clock_reads\<close> counts the evaluations of
  \<open>datetime.now(timezone.utc)\<close> so far, and \<open>calls\<close> is the trace of external calls.
\<close>

record state =
  parsing_errors :: int
  too_old_records :: int
  too_long_content_size :: "int list"
  clock_reads :: nat
  calls :: "call list"

text \<open>
  Everything the module takes from outside: the process environment, the three limits and the
  forwarder id read at import time, the table \<open>azure_properties_names\<close> of \<open>mapping.py\<close>, the
  successive readings of the clock, the functions of the Python runtime and of \<open>dateutil\<close>
  that the code calls, and the collaborators of the other modules of the package. A
  collaborator that mutates \<open>parsed_record\<close> in place returns the new dictionary here, or the
  exception it raises. The \<open>logging\<close> calls only write to the log and are not modelled.
\<close>

record env =
  environ :: "(string \<times> string) list"
  record_age_limit :: int
  attribute_value_length_limit :: int
  content_length_limit :: int
  cloud_log_forwarder :: string
  azure_properties_names :: "string list"
  clock :: "nat \<Rightarrow> int"
  isoformat :: "int \<Rightarrow> string"
  parser_parse :: "json \<Rightarrow> parsed_time"
  utf8_decode :: "string \<Rightarrow> string option"
  json_loads :: "string \<Rightarrow> json option"
  json_dumps :: "json \<Rightarrow> string"
  py_str :: "json \<Rightarrow> string"
  str_lower :: "string \<Rightarrow> string"
  extract_severity :: "dict \<Rightarrow> dict \<Rightarrow> exn + dict"
  extract_resource_id_attributes :: "dict \<Rightarrow> json \<Rightarrow> exn + dict"
  should_filter_out_record :: "dict \<Rightarrow> exn + bool"
  metadata_engine_apply :: "dict \<Rightarrow> dict \<Rightarrow> exn + dict"
  infer_monitored_entity_id :: "string \<Rightarrow> dict \<Rightarrow> exn + dict"
  send_logs :: "string \<Rightarrow> string \<Rightarrow> dict list \<Rightarrow> exn option"

section \<open>Python primitives\<close>

text \<open>Truth value of an object in a condition (\<open>if x:\<close>).\<close>

fun truthy :: "json \<Rightarrow> bool" where
  "truthy JNull = False"
| "truthy (JBool b) = b"
| "truthy (JInt i) = (i \<noteq> 0)"
| "truthy (JFloat m e) = (m \<noteq> 0)"
| "truthy (JStr s) = (s \<noteq> [])"
| "truthy (JArr xs) = (xs \<noteq> [])"
| "truthy (JObj kvs) = (kvs \<noteq> [])"

text \<open>\<open>isinstance(x, str)\<close>.\<close>

fun is_str :: "json \<Rightarrow> bool" where
  "is_str (JStr s) = True"
| "is_str _ = False"

text \<open>\<open>d.get(k, default)\<close> and \<open>k in d\<close>.\<close>

definition dict_get :: "dict \<Rightarrow> string \<Rightarrow> json \<Rightarrow> json" where
  "dict_get d k dflt = (case map_of d k of None \<Rightarrow> dflt | Some v \<Rightarrow> v)"

definition dict_has :: "dict \<Rightarrow> string \<Rightarrow> bool" where
  "dict_has d k = (map_of d k \<noteq> None)"

text \<open>
  The slice \<open>s[:n]\<close>: the first \<open>n\<close> items when \<open>n\<close> is not negative, and all but the last
  \<open>-n\<close> items when it is.
\<close>

definition slice_to :: "int \<Rightarrow> 'a list \<Rightarrow> 'a list" where
  "slice_to n xs = (if 0 \<le> n then take (nat n) xs else take (length xs - nat (- n)) xs)"

text \<open>
  A finite double is a mantissa \<open>m\<close> and a binary exponent \<open>k\<close>, standing for \<open>m * 2 ^ k\<close>.
  \<open>timedelta.total_seconds()\<close> is the true division of the integer number of microseconds
  by \<open>10 ** 6\<close>, which Python rounds correctly: the quotient is scaled by a power of two
  until it lies between \<open>2 ^ 52\<close> and \<open>2 ^ 53\<close>, and then rounded to the nearest integer,
  to the even one in a tie. (The difference of two datetimes is below \<open>2 ^ 59\<close> microseconds,
  far from the exponent range of a double.)
\<close>

definition round_half_even :: "int \<Rightarrow> int \<Rightarrow> int" where
  "round_half_even N D =
     (let f = N div D; r = N mod D
      in if 2 * r < D then f
         else if D < 2 * r then f + 1
         else if even f then f else f + 1)"

function scale_down :: "int \<Rightarrow> int \<Rightarrow> int \<Rightarrow> int \<times> int \<times> int" where
  "scale_down N D k =
     (if 0 < D \<and> 2 ^ 53 * D \<le> N then scale_down N (2 * D) (k + 1) else (N, D, k))"
  by pat_completeness auto
termination
  by (relation "measure (\<lambda>(N, D, k). nat (N - D))") auto

function scale_up :: "int \<Rightarrow> int \<Rightarrow> int \<Rightarrow> int \<times> int \<times> int" where
  "scale_up N D k =
     (if 0 < N \<and> N < 2 ^ 52 * D then scale_up (2 * N) D (k - 1) else (N, D, k))"
  by pat_completeness auto
termination
  by (relation "measure (\<lambda>(N, D, k). nat (2 ^ 52 * D - N))") auto

declare scale_down.simps [simp del]

declare scale_up.simps [simp del]

definition total_seconds :: "int \<Rightarrow> int \<times> int" where
  "total_seconds us =
     (if us = 0 then (0, 0)
      else (case scale_down \<bar>us\<bar> 1000000 0 of
              (N, D, k) \<Rightarrow>
                (case scale_up N D k of
                   (N', D', k') \<Rightarrow> (sgn us * round_half_even N' D', k'))))"

text \<open>The comparison \<open>x > n\<close> of a double with an integer, which Python makes exactly.\<close>

definition float_gt :: "int \<times> int \<Rightarrow> int \<Rightarrow> bool" where
  "float_gt x n =
     (case x of (m, k) \<Rightarrow> if 0 \<le> k then n < m * 2 ^ nat k else n * 2 ^ nat (- k) < m)"

text \<open>
  What a \<open>for\<close> loop iterates over: the items of a list, the keys of a dictionary, the
  characters of a string; any other JSON value is not iterable.
\<close>

fun iterate :: "json \<Rightarrow> exn + json list" where
  "iterate (JArr xs) = Inr xs"
| "iterate (JObj kvs) = Inr (map (\<lambda>kv. JStr (fst kv)) kvs)"
| "iterate (JStr s) = Inr (map (\<lambda>c. JStr [c]) s)"
| "iterate _ = Inl TypeError"

section \<open>The functions of the module\<close>

definition DYNATRACE_URL :: string where
  "DYNATRACE_URL = ''DYNATRACE_URL''"

definition DYNATRACE_ACCESS_KEY :: string where
  "DYNATRACE_ACCESS_KEY = ''DYNATRACE_ACCESS_KEY''"

definition DYNATRACE_LOG_INGEST_CONTENT_MARK_TRIMMED :: string where
  "DYNATRACE_LOG_INGEST_CONTENT_MARK_TRIMMED = ''[TRUNCATED]''"

text \<open>
  \<open>is_too_old\<close> (lines 101 to 114). The clock is read before the subtraction, so a naive
  datetime costs a reading and then raises \<open>TypeError\<close> inside the \<open>try\<close>. The difference
  of two aware datetimes is an exact number of microseconds; the condition of line 106
  compares its \<open>total_seconds()\<close>, a double, with the integer \<open>record_age_limit - 60\<close>.
\<close>

definition is_too_old :: "env \<Rightarrow> json \<Rightarrow> state \<Rightarrow> bool \<times> state" where
  "is_too_old e timestamp st =
     (if truthy timestamp then
        (case parser_parse e timestamp of
           ParseFail \<Rightarrow> (False, st\<lparr>parsing_errors := parsing_errors st + 1\<rparr>)
         | Naive d \<Rightarrow>
             (False, st\<lparr>clock_reads := Suc (clock_reads st),
                         parsing_errors := parsing_errors st + 1\<rparr>)
         | Aware t \<Rightarrow>
             (let now = clock e (clock_reads st);
                  st1 = st\<lparr>clock_reads := Suc (clock_reads st)\<rparr>
              in if float_gt (total_seconds (now - t)) (record_age_limit e - 60)
                 then (True, st1\<lparr>too_old_records := too_old_records st1 + 1\<rparr>)
                 else (False, st1)))
      else (False, st))"

text \<open>
  \<open>deserialize_properties\<close> (lines 117 to 121). The record has to be a dictionary: anything
  else has neither \<open>keys\<close> nor \<open>get\<close>. When no alias is present the name is the empty string
  and the lookup is made with that key. \<open>json.loads\<close> returning \<open>None\<close> stands for its
  \<open>JSONDecodeError\<close>.
\<close>

definition deserialize_properties :: "env \<Rightarrow> json \<Rightarrow> exn + dict" where
  "deserialize_properties e record =
     (case record of
        JObj d \<Rightarrow>
          (let properties_name =
                 (case filter (dict_has d) (azure_properties_names e) of
                    [] \<Rightarrow> [] | p # ps \<Rightarrow> p);
               properties = dict_get d properties_name (JObj [])
           in case properties of
                JStr s \<Rightarrow>
                  if s \<noteq> [] then
                    (case json_loads e s of
                       None \<Rightarrow> Inl JSONDecodeError
                     | Some v \<Rightarrow> Inr (AList.update ''properties'' v d))
                  else Inr d
              | _ \<Rightarrow> Inr d)
      | _ \<Rightarrow> Inl AttributeError)"

text \<open>\<open>extract_cloud_log_forwarder\<close> (lines 165 to 167).\<close>

definition extract_cloud_log_forwarder :: "env \<Rightarrow> dict \<Rightarrow> dict" where
  "extract_cloud_log_forwarder e parsed_record =
     (if cloud_log_forwarder e \<noteq> []
      then AList.update ''cloud.log_forwarder'' (JStr (cloud_log_forwarder e)) parsed_record
      else parsed_record)"

text \<open>
  \<open>parse_record\<close> up to the drop filter (lines 125 to 136): the output record as the filter
  sees it.
\<close>

definition build_parsed_record :: "env \<Rightarrow> dict \<Rightarrow> exn + dict" where
  "build_parsed_record e record =
     (case extract_severity e record [(''cloud.provider'', JStr ''Azure'')] of
        Inl x \<Rightarrow> Inl x
      | Inr p1 \<Rightarrow>
          (let p2 = extract_cloud_log_forwarder e p1
           in if dict_has record ''resourceId''
              then extract_resource_id_attributes e p2 (dict_get record ''resourceId'' JNull)
              else if dict_has record ''_ResourceId''
              then extract_resource_id_attributes e p2 (dict_get record ''_ResourceId'' JNull)
              else Inr p2))"

text \<open>
  The loop over the attributes (lines 146 to 151). Each key is visited once and only its own
  value is assigned, so the loop is a map over the items.
\<close>

definition truncate_attribute :: "env \<Rightarrow> string \<times> json \<Rightarrow> string \<times> json" where
  "truncate_attribute e kv =
     (if fst kv \<notin> set [''content'', ''severity'', ''timestamp''] \<and> truthy (snd kv)
      then (fst kv,
            JStr (slice_to (attribute_value_length_limit e)
                    (case snd kv of JStr s \<Rightarrow> s | v \<Rightarrow> py_str e v)))
      else kv)"

definition truncate_attributes :: "env \<Rightarrow> dict \<Rightarrow> dict" where
  "truncate_attributes e parsed_record = map (truncate_attribute e) parsed_record"

text \<open>The treatment of the content (lines 153 to 161).\<close>

definition truncate_content :: "env \<Rightarrow> dict \<Rightarrow> state \<Rightarrow> dict \<times> state" where
  "truncate_content e parsed_record st =
     (let content = dict_get parsed_record ''content'' JNull
      in if truthy content then
           (let s = (case content of JStr s \<Rightarrow> s | v \<Rightarrow> json_dumps e v);
                p1 = (if is_str content then parsed_record
                      else AList.update ''content'' (JStr s) parsed_record)
            in if int (length s) > content_length_limit e then
                 (let trimmed_len =
                        content_length_limit e
                        - int (length DYNATRACE_LOG_INGEST_CONTENT_MARK_TRIMMED)
                  in (AList.update ''content''
                        (JStr (slice_to trimmed_len s @ DYNATRACE_LOG_INGEST_CONTENT_MARK_TRIMMED))
                        p1,
                      st\<lparr>too_long_content_size := too_long_content_size st @ [int (length s)]\<rparr>))
               else (p1, st))
         else (parsed_record, st))"

text \<open>The sanitization step of \<open>parse_record\<close>: lines 146 to 161 together.\<close>

definition sanitize :: "env \<Rightarrow> dict \<Rightarrow> state \<Rightarrow> dict \<times> state" where
  "sanitize e parsed_record st = truncate_content e (truncate_attributes e parsed_record) st"

text \<open>
  \<open>parse_record\<close> (lines 124 to 162). The result \<open>None\<close> is the drop signal. \<open>category\<close> has
  to be a string, since \<open>lower\<close> is called on it.
\<close>

definition parse_record :: "env \<Rightarrow> dict \<Rightarrow> state \<Rightarrow> (exn + dict option) \<times> state" where
  "parse_record e record st =
     (case build_parsed_record e record of
        Inl x \<Rightarrow> (Inl x, st)
      | Inr p \<Rightarrow>
          (case should_filter_out_record e p of
             Inl x \<Rightarrow> (Inl x, st)
           | Inr filter_out \<Rightarrow>
               if filter_out then (Inr None, st)
               else
                 (case metadata_engine_apply e record p of
                    Inl x \<Rightarrow> (Inl x, st)
                  | Inr p4 \<Rightarrow>
                      (case dict_get record ''category'' (JStr []) of
                         JStr c \<Rightarrow>
                           (case infer_monitored_entity_id e (str_lower e c) p4 of
                              Inl x \<Rightarrow> (Inl x, st)
                            | Inr p5 \<Rightarrow>
                                (let (p6, st') = sanitize e p5 st
                                 in (Inr (Some p6), st')))
                       | _ \<Rightarrow> (Inl AttributeError, st)))))"

text \<open>
  \<open>process_record\<close> (lines 91 to 98). \<open>dt_payload\<close> is returned with the record appended, or
  as it was. An empty dictionary is false in \<open>if parsed_record\<close>, like \<open>None\<close>.
\<close>

definition process_record ::
    "env \<Rightarrow> dict list \<Rightarrow> json \<Rightarrow> state \<Rightarrow> (exn + dict list) \<times> state" where
  "process_record e dt_payload record st =
     (case deserialize_properties e record of
        Inl x \<Rightarrow> (Inl x, st)
      | Inr record' \<Rightarrow>
          (case parse_record e record' st of
             (Inl x, st1) \<Rightarrow> (Inl x, st1)
           | (Inr None, st1) \<Rightarrow> (Inr dt_payload, st1)
           | (Inr (Some parsed_record), st1) \<Rightarrow>
               if parsed_record \<noteq> [] then
                 (let (old, st2) =
                        is_too_old e (dict_get parsed_record ''timestamp'' JNull) st1
                  in if old then (Inr dt_payload, st2)
                     else (Inr (dt_payload @ [parsed_record]), st2))
               else (Inr dt_payload, st1)))"

text \<open>
  The loop over the records of one event (lines 66 to 75). Both \<open>except\<close> clauses count one
  parsing error and go on with the next record.
\<close>

fun process_records :: "env \<Rightarrow> json list \<Rightarrow> dict list \<Rightarrow> state \<Rightarrow> dict list \<times> state" where
  "process_records e [] dt_payload st = (dt_payload, st)"
| "process_records e (record # records) dt_payload st =
     (case process_record e dt_payload record st of
        (Inr dt_payload', st') \<Rightarrow> process_records e records dt_payload' st'
      | (Inl x, st') \<Rightarrow>
          process_records e records dt_payload
            (st'\<lparr>parsing_errors := parsing_errors st' + 1\<rparr>))"

text \<open>The timestamp of an event (line 61): the enqueue time cut to the second, or \<open>None\<close>.\<close>

definition event_timestamp :: "env \<Rightarrow> event \<Rightarrow> json" where
  "event_timestamp e ev =
     (case enqueued_time ev of
        None \<Rightarrow> JNull
      | Some t \<Rightarrow> JStr (isoformat e (t - t mod 1000000) @ ''Z''))"

text \<open>
  The expression \<open>json.loads(event_body.decode('utf-8'))\<close> of line 64: the bytes may not be
  UTF-8, and the text may not be JSON.
\<close>

definition decode_body :: "env \<Rightarrow> string \<Rightarrow> exn + json" where
  "decode_body e event_body =
     (case utf8_decode e event_body of
        None \<Rightarrow> Inl UnicodeDecodeError
      | Some event_text \<Rightarrow>
          (case json_loads e event_text of
             None \<Rightarrow> Inl JSONDecodeError
           | Some event_json \<Rightarrow> Inr event_json))"

text \<open>
  The body of the loop over the events (lines 61 to 75). Decoding the body and reading
  \<open>records\<close> are outside the \<open>try\<close> of the record loop: what they raise leaves the loop.
  \<open>get\<close> is called on the decoded value, which has to be a dictionary.
\<close>

definition process_event ::
    "env \<Rightarrow> event \<Rightarrow> dict list \<Rightarrow> state \<Rightarrow> (exn + dict list) \<times> state" where
  "process_event e ev dt_payload st =
     (let (old, st1) = is_too_old e (event_timestamp e ev) st
      in if old then (Inr dt_payload, st1)
         else
           (let st2 = st1\<lparr>calls := calls st1 @ [Body_decoded]\<rparr>
            in case decode_body e (body ev) of
                 Inl x \<Rightarrow> (Inl x, st2)
               | Inr (JObj event_json) \<Rightarrow>
                   (case iterate (dict_get event_json ''records'' (JArr [])) of
                      Inl x \<Rightarrow> (Inl x, st2)
                    | Inr records \<Rightarrow>
                        (let (dt_payload', st3) = process_records e records dt_payload st2
                         in (Inr dt_payload', st3)))
               | Inr _ \<Rightarrow> (Inl AttributeError, st2)))"

fun process_events ::
    "env \<Rightarrow> event list \<Rightarrow> dict list \<Rightarrow> state \<Rightarrow> (exn + dict list) \<times> state" where
  "process_events e [] dt_payload st = (Inr dt_payload, st)"
| "process_events e (ev # events) dt_payload st =
     (case process_event e ev dt_payload st of
        (Inl x, st') \<Rightarrow> (Inl x, st')
      | (Inr dt_payload', st') \<Rightarrow> process_events e events dt_payload' st')"

text \<open>The flag read in the \<open>finally\<close> block (line 85).\<close>

definition self_monitoring_enabled :: "env \<Rightarrow> bool" where
  "self_monitoring_enabled e =
     (case map_of (environ e) ''SELF_MONITORING_ENABLED'' of
        None \<Rightarrow> False
      | Some v \<Rightarrow> v \<in> set [''True'', ''true''])"

text \<open>The \<open>finally\<close> block (lines 84 to 88).\<close>

definition finalize :: "env \<Rightarrow> state \<Rightarrow> state" where
  "finalize e st =
     (let st1 = st\<lparr>calls := calls st @ [Log_self_monitoring_data]\<rparr>
      in if self_monitoring_enabled e
         then st1\<lparr>calls := calls st1 @ [Push_time_series_to_azure]\<rparr>
         else st1)"

text \<open>
  The \<open>try\<close> block of \<open>process_logs\<close> (lines 54 to 80); the \<open>except\<close> clause logs and raises
  again what it caught.
\<close>

definition process_logs_body :: "env \<Rightarrow> event list \<Rightarrow> state \<Rightarrow> (exn + unit) \<times> state" where
  "process_logs_body e events st =
     (case (map_of (environ e) DYNATRACE_URL, map_of (environ e) DYNATRACE_ACCESS_KEY) of
        (Some url, Some key) \<Rightarrow>
          (case process_events e events [] st of
             (Inl x, st') \<Rightarrow> (Inl x, st')
           | (Inr dt_payload, st') \<Rightarrow>
               if dt_payload \<noteq> [] then
                 (let st'' = st'\<lparr>calls := calls st' @ [Send_logs url key dt_payload]\<rparr>
                  in case send_logs e url key dt_payload of
                       None \<Rightarrow> (Inr (), st'')
                     | Some x \<Rightarrow> (Inl x, st''))
               else (Inr (), st'))
      | _ \<Rightarrow> (Inl MissingSettings, st))"

text \<open>\<open>process_logs\<close> (lines 52 to 88): the \<open>try\<close> block, then the \<open>finally\<close> block.\<close>

definition process_logs :: "env \<Rightarrow> event list \<Rightarrow> state \<Rightarrow> (exn + unit) \<times> state" where
  "process_logs e events st =
     (let (result, st') = process_logs_body e events st
      in (result, finalize e st'))"

section \<open>Auxiliary definitions\<close>

text \<open>The state with \<open>k\<close> more parsing errors counted.\<close>

definition shift_errors :: "int \<Rightarrow> state \<Rightarrow> state" where
  "shift_errors k st = st\<lparr>parsing_errors := parsing_errors st + k\<rparr>"

text \<open>The calls of the \<open>finally\<close> block.\<close>

definition finalization_calls :: "env \<Rightarrow> call list" where
  "finalization_calls e =
     Log_self_monitoring_data
       # (if self_monitoring_enabled e then [Push_time_series_to_azure] else [])"

text \<open>The two calls that flush the self-monitoring data.\<close>

definition is_flush :: "call \<Rightarrow> bool" where
  "is_flush c = (c = Log_self_monitoring_data \<or> c = Push_time_series_to_azure)"

text \<open>
  A concrete environment to run the functions on: the default age limit, small length limits,
  a clock at 2024-01-03T01:00:00Z, a parser and a JSON decoder that know a few inputs, and
  simple collaborators. The mapping engine copies \<open>time\<close> and \<open>msg\<close> of the raw record to
  \<open>timestamp\<close> and \<open>content\<close> and raises on a record that has the key \<open>boom\<close>; the filter
  drops the resource \<open>/filtered\<close>.
\<close>

definition demo_parse :: "json \<Rightarrow> parsed_time" where
  \<open>demo_parse ts =
     (if ts = JStr ''2024-01-01T00:00:00Z'' then Aware 1704067200000000
      else if ts = JStr ''2024-01-03T00:00:00Z'' then Aware 1704240000000000
      else if ts = JStr ''2024-01-01T00:00:00'' then Naive 1704067200000000
      else if ts = JStr ''0001-01-03T00:59:59.999999Z'' then Aware (- 62135420400000001)
      else ParseFail)\<close>

definition demo_isoformat :: "int \<Rightarrow> string" where
  \<open>demo_isoformat t =
     (if t = 1704067200000000 then ''2024-01-01T00:00:00''
      else if t = 1704240000000000 then ''2024-01-03T00:00:00''
      else ''0001-01-01T00:00:00'')\<close>

definition demo_loads :: "string \<Rightarrow> json option" where
  \<open>demo_loads s =
     (if s = ''{"records": [{"msg": "one"}, {"boom": 1}, {"msg": "three"}]}'' then
        Some (JObj [(''records'',
                JArr [JObj [(''msg'', JStr ''one'')],
                      JObj [(''boom'', JInt 1)],
                      JObj [(''msg'', JStr ''three'')]])])
      else if s = ''{"records": [{"msg": "one"}]}'' then
        Some (JObj [(''records'', JArr [JObj [(''msg'', JStr ''one'')]])])
      else if s = ''{"a": 1}'' then Some (JObj [(''a'', JInt 1)])
      else None)\<close>

definition demo_env :: env where
  "demo_env =
     \<lparr> environ = [(''DYNATRACE_URL'', ''https://dt.example''), (''DYNATRACE_ACCESS_KEY'', ''key'')],
       record_age_limit = 86400,
       attribute_value_length_limit = 8,
       content_length_limit = 16,
       cloud_log_forwarder = [],
       azure_properties_names = [''properties'', ''Properties''],
       clock = (\<lambda>n. 1704243600000000 + int n),
       isoformat = demo_isoformat,
       parser_parse = demo_parse,
       utf8_decode = Some,
       json_loads = demo_loads,
       json_dumps = (\<lambda>v. ''{}''),
       py_str = (\<lambda>v. ''1''),
       str_lower = (\<lambda>s. s),
       extract_severity = (\<lambda>record parsed. Inr (AList.update ''severity'' (JStr ''INFO'') parsed)),
       extract_resource_id_attributes =
         (\<lambda>parsed rid. Inr (AList.update ''azure.resource.id'' rid parsed)),
       should_filter_out_record =
         (\<lambda>parsed. Inr (dict_get parsed ''azure.resource.id'' JNull = JStr ''/filtered'')),
       metadata_engine_apply =
         (\<lambda>record parsed.
            if dict_has record ''boom'' then Inl (Raised ''mapping'')
            else Inr (AList.update ''content'' (dict_get record ''msg'' JNull)
                        (AList.update ''timestamp'' (dict_get record ''time'' JNull) parsed))),
       infer_monitored_entity_id = (\<lambda>category parsed. Inr parsed),
       send_logs = (\<lambda>url key batch. None) \<rparr>"

definition demo_state :: state where
  "demo_state =
     \<lparr> parsing_errors = 0, too_old_records = 0, too_long_content_size = [],
       clock_reads = 0, calls = [] \<rparr>"

section \<open>Evaluation rules for the concrete environment\<close>

lemmas demo_defs =
  demo_env_def demo_state_def demo_parse_def demo_isoformat_def demo_loads_def
  dict_get_def dict_has_def

lemmas sanitize_defs =
  sanitize_def truncate_attributes_def truncate_attribute_def truncate_content_def
  slice_to_def DYNATRACE_LOG_INGEST_CONTENT_MARK_TRIMMED_def

lemmas record_defs =
  process_record_def deserialize_properties_def parse_record_def build_parsed_record_def
  extract_cloud_log_forwarder_def is_too_old_def

section \<open>The comparison of \<open>total_seconds()\<close> with an integer\<close>

text \<open>
  Scaling keeps the value of the quotient and ends with a mantissa between \<open>2 ^ 52\<close> and
  \<open>2 ^ 53\<close>.
\<close>

lemma scale_down_inv:
  assumes "0 < N" "0 < D" "scale_down N D k = (N', D', k')"
  shows "N' = N \<and> 0 < D' \<and> N < 2 ^ 53 * D'
       \<and> real_of_int N / real_of_int D' * 2 powi k' = real_of_int N / real_of_int D * 2 powi k"
  using assms
proof (induction N D k rule: scale_down.induct)
  case (1 N D k)
  show ?case
  proof (cases "2 ^ 53 * D \<le> N")
    case True
    then have rec: "scale_down N (2 * D) (k + 1) = (N', D', k')"
      using "1.prems" by (subst (asm) scale_down.simps) simp
    have ih: "N' = N \<and> 0 < D' \<and> N < 2 ^ 53 * D'
       \<and> real_of_int N / real_of_int D' * 2 powi k'
           = real_of_int N / real_of_int (2 * D) * 2 powi (k + 1)"
      using "1.IH" [OF _ "1.prems"(1) _ rec] True "1.prems"(2) by simp
    have "(2::real) powi (k + 1) = 2 powi k * 2"
      by (simp add: power_int_add_1)
    then have "real_of_int N / real_of_int (2 * D) * 2 powi (k + 1)
                     = real_of_int N / real_of_int D * 2 powi k"
      by simp
    with ih show ?thesis by (simp only:)
  next
    case False
    then have "scale_down N D k = (N, D, k)"
      by (subst scale_down.simps) simp
    with "1.prems" False show ?thesis by simp
  qed
qed

lemma scale_up_inv:
  assumes "0 < N" "0 < D" "N < 2 ^ 53 * D" "scale_up N D k = (N', D', k')"
  shows "D' = D \<and> 2 ^ 52 * D \<le> N' \<and> N' < 2 ^ 53 * D
       \<and> real_of_int N' / real_of_int D * 2 powi k' = real_of_int N / real_of_int D * 2 powi k"
  using assms
proof (induction N D k rule: scale_up.induct)
  case (1 N D k)
  show ?case
  proof (cases "N < 2 ^ 52 * D")
    case True
    then have rec: "scale_up (2 * N) D (k - 1) = (N', D', k')"
      using "1.prems" by (subst (asm) scale_up.simps) simp
    have ih: "D' = D \<and> 2 ^ 52 * D \<le> N' \<and> N' < 2 ^ 53 * D
       \<and> real_of_int N' / real_of_int D * 2 powi k'
           = real_of_int (2 * N) / real_of_int D * 2 powi (k - 1)"
      using "1.IH" [OF _ _ "1.prems"(2) _ rec] True "1.prems"(1) by simp
    have "(2::real) * 2 powi (k - 1) = 2 powi k"
      by (simp add: power_int_diff)
    then have "real_of_int (2 * N) / real_of_int D * 2 powi (k - 1)
                     = real_of_int N / real_of_int D * 2 powi k"
      by (simp add: mult.assoc)
    with ih show ?thesis by (simp only:)
  next
    case False
    then have "scale_up N D k = (N, D, k)"
      by (subst scale_up.simps) simp
    with "1.prems" False show ?thesis by simp
  qed
qed

text \<open>Rounding is monotone on integer bounds and moves by at most one half.\<close>

lemma round_half_even_upper:
  assumes "0 < D" "N \<le> K * D"
  shows "round_half_even N D \<le> K"
proof -
  have f: "N div D \<le> K"
    using zdiv_mono1 [OF assms(2) assms(1)] assms(1) by simp
  show ?thesis
  proof (cases "N div D = K")
    case True
    have "N = D * (N div D) + N mod D" by simp
    with True assms have "N mod D \<le> 0" by (simp add: algebra_simps)
    with assms have "2 * (N mod D) < D" by simp
    with True show ?thesis by (simp add: round_half_even_def Let_def)
  next
    case False
    with f have "N div D + 1 \<le> K" by simp
    then show ?thesis by (simp add: round_half_even_def Let_def)
  qed
qed

lemma round_half_even_lower:
  assumes "0 < D" "K * D \<le> N"
  shows "K \<le> round_half_even N D"
proof -
  have "K \<le> N div D"
    using zdiv_mono1 [OF assms(2) assms(1)] assms(1) by simp
  then show ?thesis by (simp add: round_half_even_def Let_def)
qed

lemma round_half_even_near:
  assumes "0 < D"
  shows "\<bar>real_of_int (round_half_even N D) - real_of_int N / real_of_int D\<bar> \<le> 1 / 2"
proof -
  define f where "f = N div D"
  define r where "r = N mod D"
  have N: "N = D * f + r" by (simp add: f_def r_def)
  have r: "0 \<le> r" "r < D" using assms by (simp_all add: r_def)
  have q: "real_of_int N / real_of_int D = real_of_int f + real_of_int r / real_of_int D"
    using assms by (simp add: N field_simps)
  have r1: "0 \<le> real_of_int r / real_of_int D" using r assms by simp
  have r2: "real_of_int r / real_of_int D < 1" using r assms by simp
  have lo: "2 * r < D \<Longrightarrow> real_of_int r / real_of_int D \<le> 1 / 2"
    using assms by (simp add: field_simps)
  have hi: "D < 2 * r \<Longrightarrow> 1 / 2 \<le> real_of_int r / real_of_int D"
    using assms by (simp add: field_simps)
  have eq: "\<not> 2 * r < D \<Longrightarrow> \<not> D < 2 * r \<Longrightarrow> real_of_int r / real_of_int D = 1 / 2"
  proof -
    assume "\<not> 2 * r < D" "\<not> D < 2 * r"
    then have "D = 2 * r" by simp
    then show ?thesis using assms by simp
  qed
  consider "2 * r < D" | "D < 2 * r" | "\<not> 2 * r < D" "\<not> D < 2 * r" by blast
  then show ?thesis
  proof cases
    case 1
    then have "round_half_even N D = f"
      by (simp add: round_half_even_def Let_def f_def r_def)
    then show ?thesis using lo [OF 1] r1 by (simp add: q)
  next
    case 2
    then have "round_half_even N D = f + 1"
      by (simp add: round_half_even_def Let_def f_def r_def)
    then show ?thesis using hi [OF 2] r2 by (simp add: q)
  next
    case 3
    have h: "real_of_int N / real_of_int D = real_of_int f + 1 / 2"
      using eq [OF 3] q by simp
    have "round_half_even N D = f \<or> round_half_even N D = f + 1"
      using 3 by (simp add: round_half_even_def Let_def f_def r_def)
    then show ?thesis
    proof
      assume "round_half_even N D = f"
      then show ?thesis unfolding h by simp
    next
      assume "round_half_even N D = f + 1"
      then show ?thesis unfolding h by simp
    qed
  qed
qed

lemma float_gt_real:
  "float_gt (m, k) n \<longleftrightarrow> real_of_int n < real_of_int m * 2 powi k"
proof (cases "0 \<le> k")
  case True
  then have "(2::real) powi k = 2 ^ nat k" by (simp add: power_int_def)
  moreover have "n < m * 2 ^ nat k \<longleftrightarrow> real_of_int n < real_of_int (m * 2 ^ nat k)"
    by (simp only: of_int_less_iff)
  ultimately show ?thesis using True by (simp add: float_gt_def)
next
  case False
  then have p: "(2::real) powi k = inverse (2 ^ nat (- k))"
    by (simp add: power_int_def power_one_over inverse_eq_divide)
  have "n * 2 ^ nat (- k) < m \<longleftrightarrow> real_of_int (n * 2 ^ nat (- k)) < real_of_int m"
    by (simp only: of_int_less_iff)
  then show ?thesis using False by (simp add: float_gt_def p field_simps)
qed

text \<open>The double of a positive number of microseconds.\<close>

lemma total_seconds_pos:
  assumes "0 < a" "total_seconds a = (m, k)"
  shows "\<exists>N D. 0 < D \<and> 2 ^ 52 * D \<le> N \<and> N < 2 ^ 53 * D \<and> m = round_half_even N D
           \<and> real_of_int N / real_of_int D * 2 powi k = real_of_int a / 1000000"
proof -
  obtain N1 D1 k1 where sd: "scale_down a 1000000 0 = (N1, D1, k1)"
    by (cases "scale_down a 1000000 0")
  obtain N2 D2 k2 where su: "scale_up N1 D1 k1 = (N2, D2, k2)"
    by (cases "scale_up N1 D1 k1")
  have d: "N1 = a \<and> 0 < D1 \<and> a < 2 ^ 53 * D1
       \<and> real_of_int a / real_of_int D1 * 2 powi k1 = real_of_int a / real_of_int 1000000 * 2 powi 0"
    using scale_down_inv [OF assms(1) _ sd] by simp
  then have su': "scale_up a D1 k1 = (N2, D2, k2)" using su by simp
  have u: "D2 = D1 \<and> 2 ^ 52 * D1 \<le> N2 \<and> N2 < 2 ^ 53 * D1
       \<and> real_of_int N2 / real_of_int D1 * 2 powi k2 = real_of_int a / real_of_int D1 * 2 powi k1"
    using scale_up_inv [OF assms(1) _ _ su'] d by simp
  have "total_seconds a = (round_half_even N2 D2, k2)"
    using assms(1) sd su by (simp add: total_seconds_def)
  with assms(2) have mk: "m = round_half_even N2 D2" "k = k2" by simp_all
  show ?thesis
    using d u mk by (intro exI [of _ N2] exI [of _ D1]) simp
qed

lemma total_seconds_pos_facts:
  assumes "0 < a" "total_seconds a = (m, k)"
  shows "2 ^ 52 \<le> m"
    and "\<bar>real_of_int m * 2 powi k - real_of_int a / 1000000\<bar> \<le> 2 powi k / 2"
    and "2 powi k * 2 ^ 52 \<le> real_of_int a / 1000000"
    and "\<And>K. real_of_int a / 1000000 \<le> real_of_int K * 2 powi k
            \<Longrightarrow> real_of_int m * 2 powi k \<le> real_of_int K * 2 powi k"
    and "\<And>K. real_of_int K * 2 powi k \<le> real_of_int a / 1000000
            \<Longrightarrow> real_of_int K * 2 powi k \<le> real_of_int m * 2 powi k"
proof -
  obtain N D where D: "0 < D" and lo: "2 ^ 52 * D \<le> N" and hi: "N < 2 ^ 53 * D"
    and m: "m = round_half_even N D"
    and q: "real_of_int N / real_of_int D * 2 powi k = real_of_int a / 1000000"
    using total_seconds_pos [OF assms] by blast
  have p: "(0::real) < 2 powi k" by simp
  have rD: "0 < real_of_int D" using D by simp
  show "2 ^ 52 \<le> m"
    unfolding m using round_half_even_lower [OF D, of "2 ^ 52" N] lo by simp
  have e2: "\<bar>real_of_int m - real_of_int N / real_of_int D\<bar> * 2 powi k \<le> 1 / 2 * 2 powi k"
    unfolding m by (rule mult_right_mono [OF round_half_even_near [OF D]]) simp
  have "\<bar>(real_of_int m - real_of_int N / real_of_int D) * 2 powi k\<bar>
          = \<bar>real_of_int m - real_of_int N / real_of_int D\<bar> * \<bar>(2::real) powi k\<bar>"
    by (rule abs_mult)
  also have "\<bar>(2::real) powi k\<bar> = 2 powi k" by simp
  finally have e1: "\<bar>real_of_int m * 2 powi k - real_of_int N / real_of_int D * 2 powi k\<bar>
          = \<bar>real_of_int m - real_of_int N / real_of_int D\<bar> * 2 powi k"
    by (simp only: left_diff_distrib)
  have "\<bar>real_of_int m * 2 powi k - real_of_int N / real_of_int D * 2 powi k\<bar> \<le> 1 / 2 * 2 powi k"
    using e1 e2 by (simp only:)
  then have "\<bar>real_of_int m * 2 powi k - real_of_int a / 1000000\<bar> \<le> 1 / 2 * 2 powi k"
    unfolding q .
  then show "\<bar>real_of_int m * 2 powi k - real_of_int a / 1000000\<bar> \<le> 2 powi k / 2"
    by linarith
  have "real_of_int (2 ^ 52 * D) \<le> real_of_int N"
    using lo by (simp only: of_int_le_iff)
  then have "2 ^ 52 \<le> real_of_int N / real_of_int D"
    using rD by (simp add: field_simps)
  then have "2 ^ 52 * 2 powi k \<le> real_of_int N / real_of_int D * 2 powi k"
    by (rule mult_right_mono) simp
  then have "2 ^ 52 * 2 powi k \<le> real_of_int a / 1000000"
    unfolding q .
  then show "2 powi k * 2 ^ 52 \<le> real_of_int a / 1000000"
    by (simp only: mult.commute)
  show "real_of_int m * 2 powi k \<le> real_of_int K * 2 powi k"
    if "real_of_int a / 1000000 \<le> real_of_int K * 2 powi k" for K
  proof -
    from that have "real_of_int N / real_of_int D * 2 powi k \<le> real_of_int K * 2 powi k"
      unfolding q .
    then have "real_of_int N / real_of_int D \<le> real_of_int K"
      using p by (simp only: mult_le_cancel_right_pos)
    then have "real_of_int N \<le> real_of_int (K * D)"
      using rD by (simp add: field_simps)
    then have "N \<le> K * D" by (simp only: of_int_le_iff)
    then have "m \<le> K" unfolding m by (rule round_half_even_upper [OF D])
    then show ?thesis by simp
  qed
  show "real_of_int K * 2 powi k \<le> real_of_int m * 2 powi k"
    if "real_of_int K * 2 powi k \<le> real_of_int a / 1000000" for K
  proof -
    from that have "real_of_int K * 2 powi k \<le> real_of_int N / real_of_int D * 2 powi k"
      unfolding q .
    then have "real_of_int K \<le> real_of_int N / real_of_int D"
      using p by (simp only: mult_le_cancel_right_pos)
    then have "real_of_int (K * D) \<le> real_of_int N"
      using rD by (simp add: field_simps)
    then have "K * D \<le> N" by (simp only: of_int_le_iff)
    then have "K \<le> m" unfolding m by (rule round_half_even_lower [OF D])
    then show ?thesis by simp
  qed
qed

lemma exponent_small:
  fixes q :: real
  assumes "2 powi k * 2 ^ 52 \<le> q" "q < 2 ^ 34"
  shows "k < 0" and "(2::real) powi k \<le> 1 / 524288"
proof -
  have "(2::real) powi k * 4503599627370496 \<le> q" "q < 17179869184"
    using assms by simp_all
  then have a: "(2::real) powi k < 1 / 262144"
    by linarith
  have b: "k < - 18"
  proof (rule ccontr)
    assume "\<not> k < - 18"
    then have "(2::real) powi (- 18) \<le> 2 powi k"
      by (intro power_int_increasing) simp_all
    moreover have "(2::real) powi (- 18) = 1 / 262144"
      by (simp add: power_int_def power_one_over)
    ultimately show False using a by simp
  qed
  then show "k < 0" by simp
  have "(2::real) powi k \<le> 2 powi (- 19)"
    using b by (intro power_int_increasing) simp_all
  moreover have "(2::real) powi (- 19) = 1 / 524288"
    by (simp add: power_int_def power_one_over)
  ultimately show "(2::real) powi k \<le> 1 / 524288" by simp
qed

lemma int_as_multiple:
  assumes "k < 0"
  shows "real_of_int (n * 2 ^ nat (- k)) * 2 powi k = real_of_int n"
  using assms by (simp add: power_int_def power_one_over)

lemma total_seconds_gt_pos:
  assumes a: "0 < a" and t: "total_seconds a = (m, k)" and n: "\<bar>n\<bar> < 2 ^ 34"
  shows "real_of_int n < real_of_int m * 2 powi k \<longleftrightarrow> n * 1000000 < a"
proof
  note f = total_seconds_pos_facts [OF a t]
  have p: "(0::real) < 2 powi k" by simp
  assume "n * 1000000 < a"
  then have "n * 1000000 + 1 \<le> a" by simp
  then have "real_of_int (n * 1000000 + 1) \<le> real_of_int a" by (simp only: of_int_le_iff)
  then have q: "real_of_int n + 1 / 1000000 \<le> real_of_int a / 1000000" by simp
  show "real_of_int n < real_of_int m * 2 powi k"
  proof (cases "n \<le> 0")
    case True
    have "0 < real_of_int m" using f(1) by simp
    then have "0 < real_of_int m * 2 powi k" using p by simp
    moreover have "real_of_int n \<le> 0" using True by simp
    ultimately show ?thesis by linarith
  next
    case False
    show ?thesis
    proof (cases "real_of_int a / 1000000 < 2 ^ 34")
      case True
      have "(2::real) powi k \<le> 1 / 524288" by (rule exponent_small(2) [OF f(3) True])
      with f(2) q show ?thesis by linarith
    next
      case False
      define q where "q = real_of_int a / 1000000"
      define v where "v = real_of_int m * 2 powi k"
      have n1: "real_of_int n \<le> 17179869183"
      proof -
        from n have "n \<le> 17179869183" by simp
        then have "real_of_int n \<le> real_of_int 17179869183" by (simp only: of_int_le_iff)
        then show ?thesis by simp
      qed
      have big: "17179869184 \<le> q" using False by (simp add: q_def)
      have f3: "2 powi k * 4503599627370496 \<le> q" using f(3) by (simp add: q_def)
      have f2: "\<bar>v - q\<bar> \<le> 2 powi k / 2" using f(2) by (simp only: q_def v_def)
      have "real_of_int n < v" using n1 big f3 f2 by linarith
      then show ?thesis by (simp only: v_def)
    qed
  qed
next
  note f = total_seconds_pos_facts [OF a t]
  assume v: "real_of_int n < real_of_int m * 2 powi k"
  show "n * 1000000 < a"
  proof (rule ccontr)
    assume "\<not> n * 1000000 < a"
    then have "a \<le> n * 1000000" by simp
    then have "real_of_int a \<le> real_of_int (n * 1000000)" by (simp only: of_int_le_iff)
    then have q: "real_of_int a / 1000000 \<le> real_of_int n" by simp
    have "real_of_int n < 2 ^ 34"
    proof -
      from n have "n < 2 ^ 34" by simp
      then have "real_of_int n < real_of_int (2 ^ 34)" by (simp only: of_int_less_iff)
      then show ?thesis by simp
    qed
    with q have small: "real_of_int a / 1000000 < 2 ^ 34" by linarith
    have k: "k < 0" by (rule exponent_small(1) [OF f(3) small])
    have "real_of_int a / 1000000 \<le> real_of_int (n * 2 ^ nat (- k)) * 2 powi k"
      using q by (simp only: int_as_multiple [OF k])
    then have "real_of_int m * 2 powi k \<le> real_of_int (n * 2 ^ nat (- k)) * 2 powi k"
      by (rule f(4))
    then have "real_of_int m * 2 powi k \<le> real_of_int n"
      by (simp only: int_as_multiple [OF k])
    with v show False by linarith
  qed
qed

lemma total_seconds_lt_pos:
  assumes a: "0 < a" and t: "total_seconds a = (m, k)" and n: "\<bar>n\<bar> < 2 ^ 34"
  shows "real_of_int m * 2 powi k < real_of_int n \<longleftrightarrow> a < n * 1000000"
proof
  note f = total_seconds_pos_facts [OF a t]
  assume "a < n * 1000000"
  then have "a + 1 \<le> n * 1000000" by simp
  then have "real_of_int (a + 1) \<le> real_of_int (n * 1000000)" by (simp only: of_int_le_iff)
  then have q: "real_of_int a / 1000000 \<le> real_of_int n - 1 / 1000000" by simp
  have "real_of_int n < 2 ^ 34"
  proof -
    from n have "n < 2 ^ 34" by simp
    then have "real_of_int n < real_of_int (2 ^ 34)" by (simp only: of_int_less_iff)
    then show ?thesis by simp
  qed
  with q have small: "real_of_int a / 1000000 < 2 ^ 34" by linarith
  have "(2::real) powi k \<le> 1 / 524288" by (rule exponent_small(2) [OF f(3) small])
  with f(2) q show "real_of_int m * 2 powi k < real_of_int n" by linarith
next
  note f = total_seconds_pos_facts [OF a t]
  have p: "(0::real) < 2 powi k" by simp
  have mpos: "2 ^ 52 \<le> real_of_int m"
  proof -
    have "real_of_int (2 ^ 52) \<le> real_of_int m" using f(1) by (simp only: of_int_le_iff)
    then show ?thesis by simp
  qed
  assume v: "real_of_int m * 2 powi k < real_of_int n"
  show "a < n * 1000000"
  proof (rule ccontr)
    assume "\<not> a < n * 1000000"
    then have "n * 1000000 \<le> a" by simp
    then have "real_of_int (n * 1000000) \<le> real_of_int a" by (simp only: of_int_le_iff)
    then have q: "real_of_int n \<le> real_of_int a / 1000000" by simp
    have "0 < real_of_int m * 2 powi k" using mpos p by simp
    with v have npos: "0 < real_of_int n" by linarith
    show False
    proof (cases "k < 0")
      case True
      have "real_of_int (n * 2 ^ nat (- k)) * 2 powi k \<le> real_of_int a / 1000000"
        using q by (simp only: int_as_multiple [OF True])
      then have "real_of_int (n * 2 ^ nat (- k)) * 2 powi k \<le> real_of_int m * 2 powi k"
        by (rule f(5))
      then have "real_of_int n \<le> real_of_int m * 2 powi k"
        by (simp only: int_as_multiple [OF True])
      with v show False by linarith
    next
      case False
      then have "(2::real) powi 0 \<le> 2 powi k"
        by (intro power_int_increasing) simp_all
      then have "(1::real) \<le> 2 powi k" by simp
      then have "real_of_int m * 1 \<le> real_of_int m * 2 powi k"
        using mpos by (intro mult_left_mono) simp_all
      moreover have "real_of_int n < 2 ^ 34"
      proof -
        from n have "n < 2 ^ 34" by simp
        then have "real_of_int n < real_of_int (2 ^ 34)" by (simp only: of_int_less_iff)
        then show ?thesis by simp
      qed
      ultimately show False using v mpos by simp
    qed
  qed
qed

lemma total_seconds_neg:
  assumes "us < 0" "total_seconds (- us) = (m, k)"
  shows "total_seconds us = (- m, k)"
  using assms by (simp add: total_seconds_def split: prod.splits)

text \<open>
  As long as the bound is below \<open>2 ^ 34\<close> seconds in absolute value, the comparison of the
  double agrees with the comparison of the exact number of microseconds.
\<close>

lemma float_gt_total_seconds:
  assumes "\<bar>n\<bar> < 2 ^ 34"
  shows "float_gt (total_seconds us) n \<longleftrightarrow> n * 1000000 < us"
proof -
  consider "us = 0" | "0 < us" | "us < 0" by linarith
  then show ?thesis
  proof cases
    case 1
    then show ?thesis by (simp add: total_seconds_def float_gt_def)
  next
    case 2
    obtain m k where t: "total_seconds us = (m, k)" by (cases "total_seconds us")
    show ?thesis
      unfolding t float_gt_real by (rule total_seconds_gt_pos [OF 2 t assms])
  next
    case 3
    obtain m k where t: "total_seconds (- us) = (m, k)" by (cases "total_seconds (- us)")
    have pos: "0 < - us" using 3 by simp
    have n': "\<bar>- n\<bar> < 2 ^ 34" using assms by simp
    have "real_of_int n < real_of_int (- m) * 2 powi k
            \<longleftrightarrow> real_of_int m * 2 powi k < real_of_int (- n)"
      by simp linarith
    also have "\<dots> \<longleftrightarrow> - us < - n * 1000000"
      by (rule total_seconds_lt_pos [OF pos t n'])
    also have "\<dots> \<longleftrightarrow> n * 1000000 < us" by simp
    finally show ?thesis
      unfolding total_seconds_neg [OF 3 t] float_gt_real .
  qed
qed


section \<open>The age guard\<close>




text \<open>
  Claim C4, amended. A non-empty timestamp string that cannot be parsed makes \<open>is_too_old\<close>
  return false and add exactly one to \<open>parsing_errors\<close>, nothing else changing. The empty
  string never reaches the parser: the guard \<open>if timestamp\<close> treats it like \<open>None\<close>, false is
  returned and no counter changes.
\<close>

theorem is_too_old_unparseable:
  "(s \<noteq> [] \<and> parser_parse e (JStr s) = ParseFail
      \<longrightarrow> is_too_old e (JStr s) st = (False, st\<lparr>parsing_errors := parsing_errors st + 1\<rparr>))
   \<and> is_too_old e (JStr []) st = (False, st)"
  by (simp add: is_too_old_def)

theorem is_too_old_unparseable_witness:
  \<open>''yesterday'' \<noteq> [] \<and> parser_parse demo_env (JStr ''yesterday'') = ParseFail
   \<and> is_too_old demo_env (JStr ''yesterday'') demo_state
       = (False, demo_state\<lparr>parsing_errors := 1\<rparr>)\<close>
proof -
  have h: "''yesterday'' \<noteq> [] \<and> parser_parse demo_env (JStr ''yesterday'') = ParseFail"
    by (simp add: demo_env_def demo_parse_def)
  then have "is_too_old demo_env (JStr ''yesterday'') demo_state
               = (False, demo_state\<lparr>parsing_errors := parsing_errors demo_state + 1\<rparr>)"
    using is_too_old_unparseable [where s = "''yesterday''" and e = demo_env and st = demo_state]
    by blast
  with h show ?thesis by (simp add: demo_state_def)
qed

text \<open>
  The claim as stated fails at the empty string: the parser rejects it, and
  \<open>parsing_errors\<close> stays as it was.
\<close>

theorem is_too_old_empty_string_counterexample:
  "parser_parse demo_env (JStr []) = ParseFail
   \<and> fst (is_too_old demo_env (JStr []) demo_state) = False
   \<and> parsing_errors (snd (is_too_old demo_env (JStr []) demo_state))
       \<noteq> parsing_errors demo_state + 1"
  by (simp add: is_too_old_def demo_env_def demo_parse_def demo_state_def)

text \<open>
  Claim C10. A non-empty timestamp string that parses to a datetime without timezone is
  handled like one that does not parse: the subtraction from the aware current time raises
  inside the \<open>try\<close>, \<open>parsing_errors\<close> grows by one, \<open>too_old_records\<close> does not change and
  the result is false, whatever the wall-clock reading \<open>d\<close> and the clock are. The resulting
  state is the one an unparseable timestamp gives, but for the clock having been read once.
  (No parser returns a date for the empty string, so asking for a non-empty one excludes no
  timestamp of the claim.)
\<close>

theorem is_too_old_naive:
  "s \<noteq> [] \<Longrightarrow> parser_parse e (JStr s) = Naive d \<Longrightarrow>
   fst (is_too_old e (JStr s) st) = False
   \<and> parsing_errors (snd (is_too_old e (JStr s) st)) = parsing_errors st + 1
   \<and> too_old_records (snd (is_too_old e (JStr s) st)) = too_old_records st
   \<and> snd (is_too_old e (JStr s) st)
       = snd (is_too_old (e\<lparr>parser_parse := \<lambda>x. ParseFail\<rparr>) (JStr s) st)
           \<lparr>clock_reads := Suc (clock_reads st)\<rparr>"
  by (simp add: is_too_old_def)

text \<open>
  The witness: the naive timestamp of the demo parser is 49 hours old, and is kept.
\<close>

theorem is_too_old_naive_witness:
  \<open>parser_parse demo_env (JStr ''2024-01-01T00:00:00'') = Naive 1704067200000000
   \<and> fst (is_too_old demo_env (JStr ''2024-01-01T00:00:00'') demo_state) = False
   \<and> parsing_errors (snd (is_too_old demo_env (JStr ''2024-01-01T00:00:00'') demo_state)) = 1
   \<and> too_old_records (snd (is_too_old demo_env (JStr ''2024-01-01T00:00:00'') demo_state)) = 0\<close>
proof -
  have ne: "''2024-01-01T00:00:00'' \<noteq> []" by simp
  have nv: "parser_parse demo_env (JStr ''2024-01-01T00:00:00'') = Naive 1704067200000000"
    by (simp add: demo_env_def demo_parse_def)
  have "fst (is_too_old demo_env (JStr ''2024-01-01T00:00:00'') demo_state) = False
      \<and> parsing_errors (snd (is_too_old demo_env (JStr ''2024-01-01T00:00:00'') demo_state))
          = parsing_errors demo_state + 1
      \<and> too_old_records (snd (is_too_old demo_env (JStr ''2024-01-01T00:00:00'') demo_state))
          = too_old_records demo_state"
    using is_too_old_naive [OF ne nv, of demo_state] by blast
  with nv show ?thesis by (simp add: demo_state_def)
qed

section \<open>Sanitization\<close>

lemma slice_to_slice_to: "0 \<le> n \<Longrightarrow> slice_to n (slice_to n xs) = slice_to n xs"
  by (simp add: slice_to_def)

lemma truncate_attribute_idem:
  assumes "0 \<le> attribute_value_length_limit e"
  shows "truncate_attribute e (truncate_attribute e kv) = truncate_attribute e kv"
  using assms by (simp add: truncate_attribute_def slice_to_slice_to)

lemma truncate_attributes_idem:
  "0 \<le> attribute_value_length_limit e \<Longrightarrow>
   truncate_attributes e (truncate_attributes e p) = truncate_attributes e p"
  by (simp add: truncate_attributes_def truncate_attribute_idem)

lemma truncate_attribute_content:
  "truncate_attribute e (''content'', v) = (''content'', v)"
  by (simp add: truncate_attribute_def)

lemma map_of_truncate_attributes_content:
  "map_of (truncate_attributes e p) ''content'' = map_of p ''content''"
proof (induction p)
  case Nil
  show ?case by (simp add: truncate_attributes_def)
next
  case (Cons kv p)
  then show ?case
    by (cases kv) (auto simp: truncate_attributes_def truncate_attribute_def)
qed

lemma truncate_attributes_update_content:
  "truncate_attributes e (AList.update ''content'' v p)
     = AList.update ''content'' v (truncate_attributes e p)"
proof (induction p)
  case Nil
  show ?case by (simp add: truncate_attributes_def truncate_attribute_content)
next
  case (Cons kv p)
  then show ?case
    by (cases kv) (auto simp: truncate_attributes_def truncate_attribute_def)
qed

lemma dict_get_update: "dict_get (AList.update k v p) k d = v"
  by (simp add: dict_get_def update_conv')

lemma truncate_content_stable:
  assumes "dict_get p ''content'' JNull = JStr s"
    and "int (length s) \<le> content_length_limit e"
  shows "truncate_content e p st = (p, st)"
  using assms by (simp add: truncate_content_def Let_def)

lemma length_trimmed:
  assumes "int (length DYNATRACE_LOG_INGEST_CONTENT_MARK_TRIMMED) \<le> n" and "n < int (length s)"
  shows "int (length (slice_to (n - int (length DYNATRACE_LOG_INGEST_CONTENT_MARK_TRIMMED)) s
                        @ DYNATRACE_LOG_INGEST_CONTENT_MARK_TRIMMED)) = n"
  using assms by (simp add: slice_to_def DYNATRACE_LOG_INGEST_CONTENT_MARK_TRIMMED_def)

lemma truncate_content_result:
  assumes "int (length DYNATRACE_LOG_INGEST_CONTENT_MARK_TRIMMED) \<le> content_length_limit e"
  shows "\<not> truthy (dict_get (fst (truncate_content e p st)) ''content'' JNull)
         \<or> (\<exists>s. dict_get (fst (truncate_content e p st)) ''content'' JNull = JStr s
                \<and> int (length s) \<le> content_length_limit e)"
proof (cases "truthy (dict_get p ''content'' JNull)")
  case False
  then show ?thesis by (simp add: truncate_content_def)
next
  case True
  define c where "c = dict_get p ''content'' JNull"
  define s where "s = (case c of JStr s \<Rightarrow> s | v \<Rightarrow> json_dumps e v)"
  define p1 where "p1 = (if is_str c then p else AList.update ''content'' (JStr s) p)"
  have p1: "dict_get p1 ''content'' JNull = JStr s"
  proof (cases "is_str c")
    case str: True
    then obtain x where x: "c = JStr x" by (cases c) simp_all
    then have "dict_get p ''content'' JNull = JStr x" by (simp add: c_def)
    with x show ?thesis by (simp add: p1_def s_def)
  next
    case False
    then show ?thesis by (simp add: p1_def dict_get_update)
  qed
  show ?thesis
  proof (cases "content_length_limit e < int (length s)")
    case long: True
    have "fst (truncate_content e p st)
            = AList.update ''content''
                (JStr (slice_to (content_length_limit e
                                  - int (length DYNATRACE_LOG_INGEST_CONTENT_MARK_TRIMMED)) s
                       @ DYNATRACE_LOG_INGEST_CONTENT_MARK_TRIMMED)) p1"
      using True long
      by (simp add: truncate_content_def Let_def c_def [symmetric] s_def [symmetric]
            p1_def [symmetric])
    then show ?thesis
      using length_trimmed [OF assms long] by (simp add: dict_get_update)
  next
    case short: False
    have "fst (truncate_content e p st) = p1"
      using True short
      by (simp add: truncate_content_def Let_def c_def [symmetric] s_def [symmetric]
            p1_def [symmetric])
    then show ?thesis using p1 short by simp
  qed
qed

lemma truncate_content_idem:
  assumes "int (length DYNATRACE_LOG_INGEST_CONTENT_MARK_TRIMMED) \<le> content_length_limit e"
  shows "truncate_content e (fst (truncate_content e p st)) st'
           = (fst (truncate_content e p st), st')"
  using truncate_content_result [OF assms, of p st]
  by (auto simp: truncate_content_stable) (simp add: truncate_content_def)

lemma truncate_attributes_truncate_content:
  "truncate_attributes e (fst (truncate_content e p st))
     = fst (truncate_content e (truncate_attributes e p) st)"
  by (simp add: truncate_content_def Let_def dict_get_def map_of_truncate_attributes_content
        truncate_attributes_update_content)

text \<open>
  Claim C5, amended. A string content no longer than \<open>content_length_limit\<close> comes out of
  the sanitization unchanged, and nothing is recorded. When the marker \<open>[TRUNCATED]\<close> fits
  in \<open>content_length_limit\<close>, a string content of length \<open>L\<close> above the limit becomes its
  first \<open>content_length_limit - len("[TRUNCATED]")\<close> characters followed by the marker, and
  \<open>L\<close> is appended to \<open>too_long_content_size\<close>.
\<close>

theorem content_truncation:
  assumes "map_of p ''content'' = Some (JStr c)"
  shows "(int (length c) \<le> content_length_limit e \<longrightarrow>
            map_of (fst (sanitize e p st)) ''content'' = Some (JStr c)
            \<and> too_long_content_size (snd (sanitize e p st)) = too_long_content_size st)
       \<and> (content_length_limit e < int (length c)
            \<and> int (length DYNATRACE_LOG_INGEST_CONTENT_MARK_TRIMMED) \<le> content_length_limit e \<longrightarrow>
            map_of (fst (sanitize e p st)) ''content''
              = Some (JStr (take (nat (content_length_limit e
                              - int (length DYNATRACE_LOG_INGEST_CONTENT_MARK_TRIMMED))) c
                            @ DYNATRACE_LOG_INGEST_CONTENT_MARK_TRIMMED))
            \<and> too_long_content_size (snd (sanitize e p st))
                = too_long_content_size st @ [int (length c)])"
proof -
  have c: "dict_get (truncate_attributes e p) ''content'' JNull = JStr c"
    using assms by (simp add: dict_get_def map_of_truncate_attributes_content)
  have m: "map_of (truncate_attributes e p) ''content'' = Some (JStr c)"
    using assms by (simp add: map_of_truncate_attributes_content)
  show ?thesis
    using c m
    by (auto simp: sanitize_def truncate_content_def Let_def slice_to_def update_conv')
qed

text \<open>
  The witness, with the limit 16 of the demo environment: a line of 22 characters keeps its
  first 5, and a short line is untouched.
\<close>

theorem content_truncation_witness:
  \<open>content_length_limit demo_env < int (length ''a rather long log line'')
   \<and> int (length DYNATRACE_LOG_INGEST_CONTENT_MARK_TRIMMED) \<le> content_length_limit demo_env
   \<and> map_of (fst (sanitize demo_env
          [(''cloud.provider'', JStr ''Azure''), (''content'', JStr ''a rather long log line'')]
          demo_state)) ''content''
       = Some (JStr ''a rat[TRUNCATED]'')
   \<and> too_long_content_size (snd (sanitize demo_env
          [(''cloud.provider'', JStr ''Azure''), (''content'', JStr ''a rather long log line'')]
          demo_state))
       = [22]
   \<and> int (length ''short'') \<le> content_length_limit demo_env
   \<and> map_of (fst (sanitize demo_env
          [(''content'', JStr ''short''), (''cloud.provider'', JStr ''Azure'')] demo_state))
        ''content''
       = Some (JStr ''short'')\<close>
proof -
  let ?p = \<open>[(''cloud.provider'', JStr ''Azure''), (''content'', JStr ''a rather long log line'')]\<close>
  let ?q = \<open>[(''content'', JStr ''short''), (''cloud.provider'', JStr ''Azure'')]\<close>
  have p: "map_of ?p ''content'' = Some (JStr ''a rather long log line'')" by simp
  have q: "map_of ?q ''content'' = Some (JStr ''short'')" by simp
  have long: "content_length_limit demo_env < int (length ''a rather long log line'')
      \<and> int (length DYNATRACE_LOG_INGEST_CONTENT_MARK_TRIMMED) \<le> content_length_limit demo_env"
    by (simp add: demo_env_def DYNATRACE_LOG_INGEST_CONTENT_MARK_TRIMMED_def)
  have short: "int (length ''short'') \<le> content_length_limit demo_env"
    by (simp add: demo_env_def)
  have a: "map_of (fst (sanitize demo_env ?p demo_state)) ''content''
             = Some (JStr (take (nat (content_length_limit demo_env
                              - int (length DYNATRACE_LOG_INGEST_CONTENT_MARK_TRIMMED)))
                            ''a rather long log line''
                           @ DYNATRACE_LOG_INGEST_CONTENT_MARK_TRIMMED))
           \<and> too_long_content_size (snd (sanitize demo_env ?p demo_state))
               = too_long_content_size demo_state @ [int (length ''a rather long log line'')]"
    using long content_truncation [OF p, of demo_env demo_state] by blast
  have b: "map_of (fst (sanitize demo_env ?q demo_state)) ''content'' = Some (JStr ''short'')"
    using short content_truncation [OF q, of demo_env demo_state] by blast
  show ?thesis
    using long short a b
    by (simp add: demo_env_def demo_state_def DYNATRACE_LOG_INGEST_CONTENT_MARK_TRIMMED_def)
qed

text \<open>
  The claim as stated fails when the limit is smaller than the marker. With
  \<open>content_length_limit = 5\<close> the slice bound is \<open>-6\<close>: four characters of a content of
  ten are kept, and the result has 15 characters.
\<close>

theorem content_truncation_small_limit_counterexample:
  \<open>map_of (fst (sanitize (demo_env\<lparr>content_length_limit := 5\<rparr>)
            [(''cloud.provider'', JStr ''Azure''), (''content'', JStr ''abcdefghij'')]
            demo_state)) ''content''
     = Some (JStr ''abcd[TRUNCATED]'')
   \<and> take (nat (5 - int (length ''[TRUNCATED]''))) ''abcdefghij'' @ ''[TRUNCATED]''
       \<noteq> ''abcd[TRUNCATED]''\<close>
  by (simp add: sanitize_defs demo_defs)

text \<open>
  Claim C6, amended. When \<open>attribute_value_length_limit\<close> is not negative and
  \<open>content_length_limit\<close> is at least the length of the marker \<open>[TRUNCATED]\<close>, applying the
  sanitization step to a record that it has already sanitized gives the same record, and
  records nothing more in the state.
\<close>

theorem sanitize_idempotent:
  assumes "0 \<le> attribute_value_length_limit e"
    and "int (length DYNATRACE_LOG_INGEST_CONTENT_MARK_TRIMMED) \<le> content_length_limit e"
  shows "sanitize e (fst (sanitize e p st)) st' = (fst (sanitize e p st), st')"
proof -
  have "truncate_attributes e (fst (sanitize e p st)) = fst (sanitize e p st)"
    by (simp add: sanitize_def truncate_attributes_truncate_content
          truncate_attributes_idem [OF assms(1)])
  then show ?thesis
    using truncate_content_idem [OF assms(2), of "truncate_attributes e p" st st']
    by (simp add: sanitize_def)
qed

text \<open>The witness: a record of the demo environment, sanitized once and then again.\<close>

theorem sanitize_idempotent_witness:
  \<open>0 \<le> attribute_value_length_limit demo_env
   \<and> int (length DYNATRACE_LOG_INGEST_CONTENT_MARK_TRIMMED) \<le> content_length_limit demo_env
   \<and> fst (sanitize demo_env
        [(''cloud.provider'', JStr ''Azure''), (''azure.resource.id'', JStr ''/subscriptions/1''),
         (''content'', JStr ''a rather long log line'')] demo_state)
      = [(''cloud.provider'', JStr ''Azure''), (''azure.resource.id'', JStr ''/subscri''),
         (''content'', JStr ''a rat[TRUNCATED]'')]
   \<and> sanitize demo_env
        [(''cloud.provider'', JStr ''Azure''), (''azure.resource.id'', JStr ''/subscri''),
         (''content'', JStr ''a rat[TRUNCATED]'')] demo_state
      = ([(''cloud.provider'', JStr ''Azure''), (''azure.resource.id'', JStr ''/subscri''),
          (''content'', JStr ''a rat[TRUNCATED]'')], demo_state)\<close>
proof -
  have a: "0 \<le> attribute_value_length_limit demo_env"
    by (simp add: demo_env_def)
  have b: "int (length DYNATRACE_LOG_INGEST_CONTENT_MARK_TRIMMED) \<le> content_length_limit demo_env"
    by (simp add: demo_env_def DYNATRACE_LOG_INGEST_CONTENT_MARK_TRIMMED_def)
  have c: "fst (sanitize demo_env
        [(''cloud.provider'', JStr ''Azure''), (''azure.resource.id'', JStr ''/subscriptions/1''),
         (''content'', JStr ''a rather long log line'')] demo_state)
      = [(''cloud.provider'', JStr ''Azure''), (''azure.resource.id'', JStr ''/subscri''),
         (''content'', JStr ''a rat[TRUNCATED]'')]"
    by (simp add: sanitize_def truncate_attributes_def truncate_attribute_def truncate_content_def
          dict_get_def slice_to_def demo_env_def DYNATRACE_LOG_INGEST_CONTENT_MARK_TRIMMED_def)
  show ?thesis
    using a b c
      sanitize_idempotent [OF a b, of
        "[(''cloud.provider'', JStr ''Azure''), (''azure.resource.id'', JStr ''/subscriptions/1''),
         (''content'', JStr ''a rather long log line'')]" demo_state demo_state]
    by simp
qed

text \<open>
  The claim as stated fails for limits that the code accepts: with
  \<open>content_length_limit = 5\<close> a second pass cuts the marker itself, and with
  \<open>attribute_value_length_limit = - 1\<close> every pass removes one more character.
\<close>

theorem sanitize_small_limit_counterexample:
  \<open>fst (sanitize (demo_env\<lparr>content_length_limit := 5\<rparr>)
          [(''cloud.provider'', JStr ''Azure''), (''content'', JStr ''abcdefghij'')] demo_state)
     = [(''cloud.provider'', JStr ''Azure''), (''content'', JStr ''abcd[TRUNCATED]'')]
   \<and> fst (sanitize (demo_env\<lparr>content_length_limit := 5\<rparr>)
          [(''cloud.provider'', JStr ''Azure''), (''content'', JStr ''abcd[TRUNCATED]'')] demo_state)
     = [(''cloud.provider'', JStr ''Azure''), (''content'', JStr ''abcd[TRUN[TRUNCATED]'')]
   \<and> fst (sanitize (demo_env\<lparr>attribute_value_length_limit := - 1\<rparr>)
          [(''cloud.provider'', JStr ''Azure'')] demo_state)
     = [(''cloud.provider'', JStr ''Azur'')]
   \<and> fst (sanitize (demo_env\<lparr>attribute_value_length_limit := - 1\<rparr>)
          [(''cloud.provider'', JStr ''Azur'')] demo_state)
     = [(''cloud.provider'', JStr ''Azu'')]\<close>
  by (simp add: sanitize_defs demo_defs)

section \<open>The loop over the records\<close>

text \<open>Nothing on the way of a record reads \<open>parsing_errors\<close>.\<close>

lemma is_too_old_shift:
  "is_too_old e ts (shift_errors k st)
     = (fst (is_too_old e ts st), shift_errors k (snd (is_too_old e ts st)))"
  by (simp add: is_too_old_def shift_errors_def Let_def split: parsed_time.splits)

lemma truncate_content_shift:
  "truncate_content e p (shift_errors k st)
     = (fst (truncate_content e p st), shift_errors k (snd (truncate_content e p st)))"
  by (simp add: truncate_content_def shift_errors_def Let_def)

lemma sanitize_shift:
  "sanitize e p (shift_errors k st)
     = (fst (sanitize e p st), shift_errors k (snd (sanitize e p st)))"
  by (simp add: sanitize_def truncate_content_shift)

lemma parse_record_shift:
  "parse_record e d (shift_errors k st)
     = (fst (parse_record e d st), shift_errors k (snd (parse_record e d st)))"
  by (simp add: parse_record_def sanitize_shift split_beta
           split: sum.splits json.splits)

lemma process_record_shift:
  "process_record e p r (shift_errors k st)
     = (fst (process_record e p r st), shift_errors k (snd (process_record e p r st)))"
  by (simp add: process_record_def parse_record_shift is_too_old_shift split_beta
           split: sum.splits option.splits)

lemma process_records_shift:
  "process_records e rs p (shift_errors k st)
     = (fst (process_records e rs p st), shift_errors k (snd (process_records e rs p st)))"
proof (induction rs arbitrary: p st)
  case Nil
  show ?case by simp
next
  case (Cons r rs)
  have comm: "\<And>s. shift_errors k s\<lparr>parsing_errors := parsing_errors (shift_errors k s) + 1\<rparr>
        = shift_errors k (s\<lparr>parsing_errors := parsing_errors s + 1\<rparr>)"
    by (simp add: shift_errors_def)
  show ?case
  proof (cases "fst (process_record e p r st)")
    case (Inl x)
    then show ?thesis
      using Cons.IH by (simp add: process_record_shift split_beta comm)
  next
    case (Inr p')
    then show ?thesis
      using Cons.IH by (simp add: process_record_shift split_beta)
  qed
qed

text \<open>
  Whether a record raises, and what, depends on neither the payload nor the state; the state
  is unchanged when it does, since the only update of \<open>parse_record\<close> comes after its last
  call that can raise, and \<open>is_too_old\<close> catches what its parser raises.
\<close>

lemma parse_record_raises:
  "fst (parse_record e d st) = Inl x \<Longrightarrow> parse_record e d st' = (Inl x, st')"
  by (auto simp: parse_record_def split_beta split: sum.splits json.splits if_splits)

lemma process_record_raises:
  assumes "fst (process_record e p r st) = Inl x"
  shows "process_record e p' r st' = (Inl x, st')"
proof (cases "deserialize_properties e r")
  case (Inl y)
  with assms show ?thesis by (simp add: process_record_def)
next
  case (Inr d)
  with assms have "fst (parse_record e d st) = Inl x"
    by (simp add: process_record_def split_beta
             split: sum.splits option.splits if_splits)
  then have "parse_record e d st' = (Inl x, st')"
    by (rule parse_record_raises)
  with Inr show ?thesis by (simp add: process_record_def)
qed

text \<open>
  Claim C1. If processing the record \<open>r\<close> raises, then the loop over \<open>xs @ r # ys\<close> gives
  what the loop over \<open>xs @ ys\<close> gives, the same payload in the same order and the same
  state, but for \<open>parsing_errors\<close>, which is larger by exactly one: the record is skipped,
  counted once, and every other record is processed as if it had not been there. The event
  that holds such a record does not raise: the loop over the events goes on with the events
  after it, with that payload and that state.
\<close>

theorem one_failing_record_is_skipped:
  assumes raises: "fst (process_record e p0 r s0) = Inl x"
  shows "process_records e (xs @ r # ys) p st
           = (fst (process_records e (xs @ ys) p st),
              shift_errors 1 (snd (process_records e (xs @ ys) p st)))
       \<and> (is_too_old e (event_timestamp e ev) st = (False, st')
            \<and> decode_body e (body ev) = Inr (JObj event_json)
            \<and> iterate (dict_get event_json ''records'' (JArr [])) = Inr (xs @ r # ys)
          \<longrightarrow> process_events e (ev # events) p st
                = process_events e events
                    (fst (process_records e (xs @ ys) p
                            (st'\<lparr>calls := calls st' @ [Body_decoded]\<rparr>)))
                    (shift_errors 1
                      (snd (process_records e (xs @ ys) p
                              (st'\<lparr>calls := calls st' @ [Body_decoded]\<rparr>)))))"
proof -
  have inner: "process_records e (xs @ r # ys) p st
           = (fst (process_records e (xs @ ys) p st),
              shift_errors 1 (snd (process_records e (xs @ ys) p st)))" for p st
  proof (induction xs arbitrary: p st)
    case Nil
    have "process_record e p r st = (Inl x, st)"
      using raises by (rule process_record_raises)
    then have "process_records e (r # ys) p st = process_records e ys p (shift_errors 1 st)"
      by (simp add: shift_errors_def)
    then show ?case
      by (simp add: process_records_shift)
  next
    case (Cons a xs)
    show ?case
      by (cases "process_record e p a st") (simp add: Cons.IH split: sum.splits)
  qed
  show ?thesis
    by (simp add: inner process_event_def split_beta Let_def)
qed

text \<open>
  The witness: an event enqueued an hour ago holds three records, and the second makes the
  mapping engine raise. The first and the third are in the output, in this order, and one
  parsing error is counted.
\<close>

theorem one_failing_record_is_skipped_witness:
  \<open>fst (process_record demo_env [] (JObj [(''boom'', JInt 1)]) demo_state)
     = Inl (Raised ''mapping'')
   \<and> process_events demo_env
        [\<lparr>enqueued_time = Some 1704240000000000,
          body = ''{"records": [{"msg": "one"}, {"boom": 1}, {"msg": "three"}]}''\<rparr>]
        [] demo_state
     = (Inr [[(''cloud.provider'', JStr ''Azure''), (''severity'', JStr ''INFO''),
              (''timestamp'', JNull), (''content'', JStr ''one'')],
             [(''cloud.provider'', JStr ''Azure''), (''severity'', JStr ''INFO''),
              (''timestamp'', JNull), (''content'', JStr ''three'')]],
        demo_state\<lparr>parsing_errors := 1, clock_reads := 1, calls := [Body_decoded]\<rparr>)\<close>
proof -
  let ?one = \<open>JObj [(''msg'', JStr ''one'')]\<close>
  let ?boom = \<open>JObj [(''boom'', JInt 1)]\<close>
  let ?three = \<open>JObj [(''msg'', JStr ''three'')]\<close>
  let ?json = \<open>[(''records'', JArr [?one, ?boom, ?three])]\<close>
  let ?ev = \<open>\<lparr>enqueued_time = Some 1704240000000000,
               body = ''{"records": [{"msg": "one"}, {"boom": 1}, {"msg": "three"}]}''\<rparr>\<close>
  let ?st1 = \<open>demo_state\<lparr>clock_reads := 1\<rparr>\<close>
  have h: "fst (process_record demo_env [] ?boom demo_state) = Inl (Raised ''mapping'')"
    by (simp add: record_defs demo_defs)
  have ts: "event_timestamp demo_env ?ev = JStr ''2024-01-03T00:00:00Z''"
    by (simp add: event_timestamp_def demo_env_def demo_isoformat_def)
  have fresh: "is_too_old demo_env (event_timestamp demo_env ?ev) demo_state = (False, ?st1)"
    by (simp add: ts) (simp add: is_too_old_def demo_defs float_gt_total_seconds)
  have dec: "decode_body demo_env (body ?ev) = Inr (JObj ?json)"
    by (simp add: decode_body_def demo_env_def demo_loads_def)
  have it: "iterate (dict_get ?json ''records'' (JArr [])) = Inr ([?one] @ ?boom # [?three])"
    by (simp add: dict_get_def)
  have two: "process_records demo_env ([?one] @ [?three]) []
               (?st1\<lparr>calls := calls ?st1 @ [Body_decoded]\<rparr>)
     = ([[(''cloud.provider'', JStr ''Azure''), (''severity'', JStr ''INFO''),
          (''timestamp'', JNull), (''content'', JStr ''one'')],
         [(''cloud.provider'', JStr ''Azure''), (''severity'', JStr ''INFO''),
          (''timestamp'', JNull), (''content'', JStr ''three'')]],
        demo_state\<lparr>clock_reads := 1, calls := [Body_decoded]\<rparr>)"
    by (simp add: record_defs sanitize_defs demo_defs)
  have step: "process_events demo_env (?ev # []) [] demo_state
          = process_events demo_env []
              (fst (process_records demo_env ([?one] @ [?three]) []
                      (?st1\<lparr>calls := calls ?st1 @ [Body_decoded]\<rparr>)))
              (shift_errors 1
                (snd (process_records demo_env ([?one] @ [?three]) []
                        (?st1\<lparr>calls := calls ?st1 @ [Body_decoded]\<rparr>))))"
    using fresh dec it
      one_failing_record_is_skipped [where xs = "[?one]" and ys = "[?three]" and p = "[]"
        and st = demo_state and ev = ?ev and st' = ?st1 and event_json = ?json
        and events = "[]", OF h]
    by blast
  have fin: "shift_errors 1 (demo_state\<lparr>clock_reads := 1, calls := [Body_decoded]\<rparr>)
               = demo_state\<lparr>parsing_errors := 1, clock_reads := 1, calls := [Body_decoded]\<rparr>"
    by (simp add: shift_errors_def demo_state_def)
  have "process_events demo_env (?ev # []) [] demo_state
     = (Inr [[(''cloud.provider'', JStr ''Azure''), (''severity'', JStr ''INFO''),
              (''timestamp'', JNull), (''content'', JStr ''one'')],
             [(''cloud.provider'', JStr ''Azure''), (''severity'', JStr ''INFO''),
              (''timestamp'', JNull), (''content'', JStr ''three'')]],
        demo_state\<lparr>parsing_errors := 1, clock_reads := 1, calls := [Body_decoded]\<rparr>)"
    using step by (simp only: two fst_conv snd_conv process_events.simps(1) fin)
  with h show ?thesis by (rule conjI)
qed

text \<open>
  Claim C7. When the drop filter answers true on the record built so far, \<open>parse_record\<close>
  returns the drop signal with the state as it was: nothing was sanitized or truncated, no
  counter moved, \<open>too_long_content_size\<close> got no entry. \<open>process_record\<close> then leaves the
  payload as it was, and the loop goes on as if the record had not been there.
\<close>

theorem filtered_record_is_dropped:
  assumes "deserialize_properties e r = Inr d"
    and "build_parsed_record e d = Inr p"
    and "should_filter_out_record e p = Inr True"
  shows "parse_record e d st = (Inr None, st)
       \<and> process_record e dt_payload r st = (Inr dt_payload, st)
       \<and> process_records e (r # rs) dt_payload st = process_records e rs dt_payload st"
proof -
  have a: "parse_record e d st = (Inr None, st)"
    using assms(2,3) by (simp add: parse_record_def)
  have b: "process_record e dt_payload r st = (Inr dt_payload, st)"
    using assms(1) a by (simp add: process_record_def)
  from a b show ?thesis by simp
qed

text \<open>
  The witness: a record of the filtered resource whose message is longer than the content
  limit leaves no trace.
\<close>

theorem filtered_record_is_dropped_witness:
  \<open>deserialize_properties demo_env
      (JObj [(''resourceId'', JStr ''/filtered''), (''msg'', JStr (replicate 20 CHR ''x''))])
      = Inr [(''resourceId'', JStr ''/filtered''), (''msg'', JStr (replicate 20 CHR ''x''))]
   \<and> build_parsed_record demo_env
        [(''resourceId'', JStr ''/filtered''), (''msg'', JStr (replicate 20 CHR ''x''))]
      = Inr [(''cloud.provider'', JStr ''Azure''), (''severity'', JStr ''INFO''),
             (''azure.resource.id'', JStr ''/filtered'')]
   \<and> should_filter_out_record demo_env
        [(''cloud.provider'', JStr ''Azure''), (''severity'', JStr ''INFO''),
         (''azure.resource.id'', JStr ''/filtered'')] = Inr True
   \<and> process_record demo_env []
        (JObj [(''resourceId'', JStr ''/filtered''), (''msg'', JStr (replicate 20 CHR ''x''))])
        demo_state
      = (Inr [], demo_state)\<close>
proof -
  let ?d = \<open>[(''resourceId'', JStr ''/filtered''), (''msg'', JStr (replicate 20 CHR ''x''))]\<close>
  let ?p = \<open>[(''cloud.provider'', JStr ''Azure''), (''severity'', JStr ''INFO''),
             (''azure.resource.id'', JStr ''/filtered'')]\<close>
  have a: "deserialize_properties demo_env (JObj ?d) = Inr ?d"
    by (simp add: deserialize_properties_def demo_env_def dict_has_def dict_get_def)
  have b: "build_parsed_record demo_env ?d = Inr ?p"
    by (simp add: build_parsed_record_def extract_cloud_log_forwarder_def demo_env_def
          dict_has_def dict_get_def)
  have c: "should_filter_out_record demo_env ?p = Inr True"
    by (simp add: demo_env_def dict_get_def)
  show ?thesis
    using a b c filtered_record_is_dropped [OF a b c, of demo_state "[]" "[]"] by simp
qed

section \<open>The loop over the events\<close>

text \<open>
  Claim C8. When the timestamp of an event is judged too old, the event leaves the payload
  as it was and the state with one more stale item and one more clock reading: no body was
  decoded (\<open>calls\<close> is unchanged), no parsing error was counted and no exception was raised.
  This holds whatever the body is, and the loop goes on with the next event.
\<close>

theorem stale_event_is_not_decoded:
  assumes "fst (is_too_old e (event_timestamp e ev) st) = True"
  shows "process_event e (ev\<lparr>body := b\<rparr>) dt_payload st
           = (Inr dt_payload,
              st\<lparr>clock_reads := Suc (clock_reads st),
                  too_old_records := too_old_records st + 1\<rparr>)
       \<and> process_event e ev dt_payload st = process_event e (ev\<lparr>body := b\<rparr>) dt_payload st
       \<and> process_events e (ev # events) dt_payload st
           = process_events e events dt_payload
               (st\<lparr>clock_reads := Suc (clock_reads st),
                   too_old_records := too_old_records st + 1\<rparr>)"
proof -
  have ts: "event_timestamp e (ev\<lparr>body := b\<rparr>) = event_timestamp e ev"
    by (simp add: event_timestamp_def)
  have "is_too_old e (event_timestamp e ev) st
          = (True, st\<lparr>clock_reads := Suc (clock_reads st),
                       too_old_records := too_old_records st + 1\<rparr>)"
    using assms
    by (auto simp: is_too_old_def Let_def split: if_splits parsed_time.splits)
  then show ?thesis
    by (simp add: process_event_def ts)
qed

text \<open>The witness: an event enqueued 49 hours ago with a body that is not JSON.\<close>

theorem stale_event_is_not_decoded_witness:
  \<open>fst (is_too_old demo_env
          (event_timestamp demo_env \<lparr>enqueued_time = Some 1704067200123456, body = ''not json''\<rparr>)
          demo_state) = True
   \<and> process_event demo_env \<lparr>enqueued_time = Some 1704067200123456, body = ''not json''\<rparr>
        [] demo_state
      = (Inr [], demo_state\<lparr>clock_reads := 1, too_old_records := 1\<rparr>)\<close>
proof -
  let ?ev = \<open>\<lparr>enqueued_time = Some 1704067200123456, body = ''not json''\<rparr>\<close>
  have ts: "event_timestamp demo_env ?ev = JStr ''2024-01-01T00:00:00Z''"
    by (simp add: event_timestamp_def demo_env_def demo_isoformat_def)
  have h: "fst (is_too_old demo_env (event_timestamp demo_env ?ev) demo_state) = True"
    by (simp add: ts) (simp add: is_too_old_def demo_defs float_gt_total_seconds)
  show ?thesis
    using h stale_event_is_not_decoded [OF h, of "''not json''" "[]" "[]"]
    by (simp add: demo_state_def)
qed

lemma process_events_append:
  "process_events e (xs @ ys) p st
     = (case process_events e xs p st of
          (Inl x, s) \<Rightarrow> (Inl x, s)
        | (Inr p', s) \<Rightarrow> process_events e ys p' s)"
proof (induction xs arbitrary: p st)
  case Nil
  show ?case by simp
next
  case (Cons a xs)
  show ?case
    by (cases "process_event e a p st") (simp add: Cons.IH split: sum.splits)
qed

text \<open>
  Claim C2, amended. The failure to decode the body of an event that is not stale is not
  isolated: no \<open>try\<close> stands between line 64 and the one around the whole of
  \<open>process_logs\<close>. The exception leaves the loop over the events, \<open>parsing_errors\<close> is not
  incremented for it, the events after it are not looked at, nothing is sent, and the
  invocation ends with that exception once the finalization has run.
\<close>

theorem undecodable_body_aborts:
  assumes "map_of (environ e) DYNATRACE_URL = Some url"
    and "map_of (environ e) DYNATRACE_ACCESS_KEY = Some key"
    and "process_events e before [] st = (Inr dt_payload, st1)"
    and "is_too_old e (event_timestamp e ev) st1 = (False, st2)"
    and "decode_body e (body ev) = Inl x"
  shows "process_events e (before @ ev # after) [] st
           = (Inl x, st2\<lparr>calls := calls st2 @ [Body_decoded]\<rparr>)
       \<and> process_logs e (before @ ev # after) st
           = (Inl x, st2\<lparr>calls := calls st2 @ Body_decoded # finalization_calls e\<rparr>)"
proof -
  have "process_event e ev dt_payload st1 = (Inl x, st2\<lparr>calls := calls st2 @ [Body_decoded]\<rparr>)"
    using assms(4,5) by (simp add: process_event_def)
  then have a: "process_events e (before @ ev # after) [] st
           = (Inl x, st2\<lparr>calls := calls st2 @ [Body_decoded]\<rparr>)"
    using assms(3) by (simp add: process_events_append)
  then have "process_logs e (before @ ev # after) st
           = (Inl x, finalize e (st2\<lparr>calls := calls st2 @ [Body_decoded]\<rparr>))"
    using assms(1,2) by (simp add: process_logs_def process_logs_body_def)
  then show ?thesis
    using a by (simp add: finalize_def finalization_calls_def)
qed

text \<open>
  The witness: the first event is decoded, the second is not JSON, the third is never
  looked at.
\<close>

theorem undecodable_body_aborts_witness:
  \<open>process_events demo_env [\<lparr>enqueued_time = None, body = ''{"a": 1}''\<rparr>] [] demo_state
      = (Inr [], demo_state\<lparr>calls := [Body_decoded]\<rparr>)
   \<and> process_logs demo_env
       [\<lparr>enqueued_time = None, body = ''{"a": 1}''\<rparr>,
        \<lparr>enqueued_time = None, body = ''not json''\<rparr>,
        \<lparr>enqueued_time = None, body = ''{"records": [{"msg": "one"}]}''\<rparr>]
       demo_state
      = (Inl JSONDecodeError,
         demo_state\<lparr>calls := [Body_decoded, Body_decoded, Log_self_monitoring_data]\<rparr>)\<close>
proof -
  let ?ok = \<open>\<lparr>enqueued_time = None, body = ''{"a": 1}''\<rparr>\<close>
  let ?bad = \<open>\<lparr>enqueued_time = None, body = ''not json''\<rparr>\<close>
  let ?last = \<open>\<lparr>enqueued_time = None, body = ''{"records": [{"msg": "one"}]}''\<rparr>\<close>
  let ?st1 = \<open>demo_state\<lparr>calls := [Body_decoded]\<rparr>\<close>
  have u: "map_of (environ demo_env) DYNATRACE_URL = Some ''https://dt.example''"
    by (simp add: demo_env_def DYNATRACE_URL_def)
  have k: "map_of (environ demo_env) DYNATRACE_ACCESS_KEY = Some ''key''"
    by (simp add: demo_env_def DYNATRACE_ACCESS_KEY_def DYNATRACE_URL_def)
  have b: "process_events demo_env [?ok] [] demo_state = (Inr [], ?st1)"
    by (simp add: process_event_def decode_body_def is_too_old_def event_timestamp_def demo_defs)
  have f: "is_too_old demo_env (event_timestamp demo_env ?bad) ?st1 = (False, ?st1)"
    by (simp add: is_too_old_def event_timestamp_def)
  have d: "decode_body demo_env (body ?bad) = Inl JSONDecodeError"
    by (simp add: decode_body_def demo_defs)
  show ?thesis
    using b undecodable_body_aborts [OF u k b f d, of "[?last]"]
    by (simp add: finalization_calls_def self_monitoring_enabled_def demo_defs)
qed

text \<open>
  The claim as stated fails: with a first event whose body is not JSON and a second one that
  is fine, the invocation fails with the decode error, \<open>parsing_errors\<close> is still zero,
  the second body was never decoded and nothing was sent.
\<close>

theorem undecodable_body_counterexample:
  \<open>process_logs demo_env
      [\<lparr>enqueued_time = Some 1704240000000000, body = ''not json''\<rparr>,
       \<lparr>enqueued_time = Some 1704240000000000, body = ''{"records": [{"msg": "one"}]}''\<rparr>]
      demo_state
     = (Inl JSONDecodeError,
        demo_state\<lparr>clock_reads := 1, calls := [Body_decoded, Log_self_monitoring_data]\<rparr>)\<close>
  by (simp add: process_logs_def process_logs_body_def process_event_def decode_body_def
        is_too_old_def event_timestamp_def finalize_def self_monitoring_enabled_def
        DYNATRACE_URL_def DYNATRACE_ACCESS_KEY_def demo_defs float_gt_total_seconds)

section \<open>Finalization\<close>

text \<open>The \<open>try\<close> block makes none of the two flushing calls.\<close>

lemma is_too_old_calls: "calls (snd (is_too_old e ts st)) = calls st"
  by (simp add: is_too_old_def Let_def split: parsed_time.splits)

lemma truncate_content_calls: "calls (snd (truncate_content e p st)) = calls st"
  by (simp add: truncate_content_def Let_def)

lemma parse_record_calls: "calls (snd (parse_record e d st)) = calls st"
  by (simp add: parse_record_def sanitize_def truncate_content_calls split_beta
        split: sum.splits json.splits)

lemma process_record_calls: "calls (snd (process_record e p r st)) = calls st"
  by (simp add: process_record_def parse_record_calls is_too_old_calls split_beta
        split: sum.splits option.splits prod.splits)

lemma process_records_calls: "calls (snd (process_records e rs p st)) = calls st"
proof (induction rs arbitrary: p st)
  case Nil
  show ?case by simp
next
  case (Cons r rs)
  show ?case
    using process_record_calls [of e p r st]
    by (cases "process_record e p r st") (simp add: Cons.IH split: sum.splits)
qed

lemma process_event_flushes:
  "filter is_flush (calls (snd (process_event e ev p st))) = filter is_flush (calls st)"
proof -
  obtain old st1 where o: "is_too_old e (event_timestamp e ev) st = (old, st1)"
    by (cases "is_too_old e (event_timestamp e ev) st")
  then have c1: "calls st1 = calls st"
    using is_too_old_calls [of e "event_timestamp e ev" st] by simp
  show ?thesis
    using o c1
    by (simp add: process_event_def process_records_calls is_flush_def split_beta Let_def
          split: sum.splits json.splits)
qed

lemma process_events_flushes:
  "filter is_flush (calls (snd (process_events e evs p st))) = filter is_flush (calls st)"
proof (induction evs arbitrary: p st)
  case Nil
  show ?case by simp
next
  case (Cons ev evs)
  show ?case
    using process_event_flushes [of e ev p st]
    by (cases "process_event e ev p st") (simp add: Cons.IH split: sum.splits)
qed

lemma process_logs_body_flushes:
  "filter is_flush (calls (snd (process_logs_body e evs st))) = filter is_flush (calls st)"
  using process_events_flushes [of e evs "[]" st]
  by (simp add: process_logs_body_def is_flush_def split_beta Let_def
        split: option.splits sum.splits prod.splits)

text \<open>
  Claim C9. Whatever the events, the environment and the state, \<open>process_logs\<close> hands to its
  caller the result of the \<open>try\<close> block, the exception included, together with a state in
  which the calls of the finalization come last; of the flushing calls the invocation makes
  exactly those: \<open>log_self_monitoring_data\<close> once, then \<open>push_time_series_to_azure\<close> once
  when the flag is set.
\<close>

theorem finalization_runs_once:
  "fst (process_logs e events st) = fst (process_logs_body e events st)
   \<and> calls (snd (process_logs e events st))
       = calls (snd (process_logs_body e events st)) @ finalization_calls e
   \<and> filter is_flush (calls (snd (process_logs e events st)))
       = filter is_flush (calls st) @ finalization_calls e"
proof -
  have a: "calls (snd (process_logs e events st))
       = calls (snd (process_logs_body e events st)) @ finalization_calls e"
    by (simp add: process_logs_def finalize_def finalization_calls_def split_beta)
  have b: "filter is_flush (finalization_calls e) = finalization_calls e"
    by (simp add: finalization_calls_def is_flush_def)
  show ?thesis
    using a b process_logs_body_flushes [of e events st]
    by (simp add: process_logs_def split_beta)
qed

text \<open>
  The witness: with the flag set and the two settings missing, the invocation fails and has
  flushed once.
\<close>

theorem finalization_runs_once_witness:
  \<open>fst (process_logs (demo_env\<lparr>environ := [(''SELF_MONITORING_ENABLED'', ''true'')]\<rparr>)
          [\<lparr>enqueued_time = None, body = ''{"a": 1}''\<rparr>] demo_state)
     = Inl MissingSettings
   \<and> calls (snd (process_logs (demo_env\<lparr>environ := [(''SELF_MONITORING_ENABLED'', ''true'')]\<rparr>)
                   [\<lparr>enqueued_time = None, body = ''{"a": 1}''\<rparr>] demo_state))
     = [Log_self_monitoring_data, Push_time_series_to_azure]\<close>
proof -
  let ?e = \<open>demo_env\<lparr>environ := [(''SELF_MONITORING_ENABLED'', ''true'')]\<rparr>\<close>
  let ?evs = \<open>[\<lparr>enqueued_time = None, body = ''{"a": 1}''\<rparr>]\<close>
  have b: "process_logs_body ?e ?evs demo_state = (Inl MissingSettings, demo_state)"
    by (simp add: process_logs_body_def DYNATRACE_URL_def DYNATRACE_ACCESS_KEY_def)
  have f: "finalization_calls ?e = [Log_self_monitoring_data, Push_time_series_to_azure]"
    by (simp add: finalization_calls_def self_monitoring_enabled_def)
  have c: "calls demo_state = []"
    by (simp add: demo_state_def)
  show ?thesis
    using finalization_runs_once [of ?e ?evs demo_state]
    by (simp add: b f c)
qed

end
